theory Spec2Isabelle
  imports Complex_Main
begin

section \<open>JavaScript values\<close>

text \<open>
  The schema loader and the extractor work on untyped JSON: the TypeScript interfaces
  (\<open>ExtractorSchema\<close>, \<open>StructuredSchema\<close>) are erased at run time and the loaded file is
  cast to them without a check. Schemas, descriptors, raw values and outputs are therefore
  all values of one type \<open>jv\<close>.

  An object is the list of its own enumerable properties in property order. A well-formed
  object has pairwise distinct keys (\<open>wf_obj\<close>). Objects and arrays that come from
  \<open>JSON.parse\<close>, from a literal, a spread or a rest pattern have the built-in prototype;
  reading a key that is not an own property then reaches \<open>Object.prototype\<close> or
  \<open>Array.prototype\<close> and yields a built-in function (\<open>constructor\<close>, \<open>toString\<close>, ...)
  or, for \<open>__proto__\<close>, the prototype object itself. These are the values \<open>JBuiltin\<close>.
  The reordering of integer-like keys is not part of the model.

  A number is a rational (every finite double is one), \<open>NaN\<close> or an infinity; the two
  zeros are identified. The program does no arithmetic on numbers.
\<close>

datatype jsnum = Fin rat | NaN | PosInf | NegInf

datatype error = TypeError | QueryError

datatype builtin = ObjectPrototype | ArrayPrototype | BuiltinFunction string

datatype jv =
    JUndef
  | JNull
  | JBool bool
  | JNum jsnum
  | JStr string
  | JArr "jv list"
  | JObj "(string \<times> jv) list"
  | JBuiltin builtin

type_synonym props = "(string \<times> jv) list"

text \<open>
  An object that the program builds by assignments \<open>obj[k] = v\<close> can get another prototype:
  the key \<open>__proto__\<close> is taken by the setter of \<open>Object.prototype\<close>.
\<close>

datatype proto = DefaultProto | NullProto | ValueProto jv

type_synonym built_object = "proto \<times> props"

text \<open>
  What the program takes from the JavaScript runtime and the model cannot fix: Unicode
  lower-casing, the white-space class (shared by \<open>trim\<close> and \<open>\s\<close>), the conversion
  between numbers and their text, which functions the chain starting at a built-in
  prototype supplies under which key (\<open>protoFunction\<close> gives the name of the function), and
  the text that \<open>String\<close> prints for a built-in function.
\<close>

record js_runtime =
  toLowerCase :: "string \<Rightarrow> string"
  isSpace :: "char \<Rightarrow> bool"
  numToString :: "jsnum \<Rightarrow> string"
  strToNumber :: "string \<Rightarrow> jsnum"
  protoFunction :: "builtin \<Rightarrow> string \<Rightarrow> string option"
  functionSource :: "string \<Rightarrow> string"

subsection \<open>Truthiness, typeof, strings\<close>

fun truthy :: "jv \<Rightarrow> bool" where
  "truthy JUndef = False"
| "truthy JNull = False"
| "truthy (JBool b) = b"
| "truthy (JNum n) = (n \<noteq> Fin 0 \<and> n \<noteq> NaN)"
| "truthy (JStr s) = (s \<noteq> [])"
| "truthy (JArr xs) = True"
| "truthy (JObj kvs) = True"
| "truthy (JBuiltin b) = True"

text \<open>\<open>a || b\<close>\<close>

definition js_or :: "jv \<Rightarrow> jv \<Rightarrow> jv" where
  "js_or a b = (if truthy a then a else b)"

fun typeof :: "jv \<Rightarrow> string" where
  "typeof JUndef = ''undefined''"
| "typeof JNull = ''object''"
| "typeof (JBool b) = ''boolean''"
| "typeof (JNum n) = ''number''"
| "typeof (JStr s) = ''string''"
| "typeof (JArr xs) = ''object''"
| "typeof (JObj kvs) = ''object''"
| "typeof (JBuiltin (BuiltinFunction f)) = ''function''"
| "typeof (JBuiltin b) = ''object''"

fun startsWith :: "string \<Rightarrow> string \<Rightarrow> bool" where
  "startsWith s [] = True"
| "startsWith [] (p # ps) = False"
| "startsWith (c # cs) (p # ps) = (c = p \<and> startsWith cs ps)"

text \<open>\<open>s.includes(sub)\<close>\<close>

fun includes_str :: "string \<Rightarrow> string \<Rightarrow> bool" where
  "includes_str [] sub = (sub = [])"
| "includes_str (c # cs) sub = (startsWith (c # cs) sub \<or> includes_str cs sub)"

text \<open>\<open>s.trim()\<close>\<close>

definition trim :: "js_runtime \<Rightarrow> string \<Rightarrow> string" where
  "trim rt s = rev (dropWhile (isSpace rt) (rev (dropWhile (isSpace rt) s)))"

definition digit_chars :: string where
  "digit_chars = ''0123456789''"

fun show_nat :: "nat \<Rightarrow> string" where
  "show_nat n = (if n < 10 then [digit_chars ! n]
                 else show_nat (n div 10) @ [digit_chars ! (n mod 10)])"

declare show_nat.simps [simp del]

subsection \<open>Properties\<close>

definition wf_obj :: "props \<Rightarrow> bool" where
  "wf_obj kvs = distinct (map fst kvs)"

text \<open>
  The own enumerable properties of a value that is neither \<open>null\<close> nor \<open>undefined\<close>:
  what \<open>Object.entries\<close>, object spread and rest destructuring enumerate.
\<close>

fun entries :: "jv \<Rightarrow> props" where
  "entries (JObj kvs) = kvs"
| "entries (JArr xs) = zip (map show_nat [0..<length xs]) xs"
| "entries (JStr s) = zip (map show_nat [0..<length s]) (map (\<lambda>c. JStr [c]) s)"
| "entries v = []"

text \<open>\<open>Object.entries(v)\<close> throws on \<open>null\<close> and \<open>undefined\<close>.\<close>

fun Object_entries :: "jv \<Rightarrow> error + props" where
  "Object_entries JUndef = Inl TypeError"
| "Object_entries JNull = Inl TypeError"
| "Object_entries v = Inr (entries v)"

definition lookup :: "props \<Rightarrow> string \<Rightarrow> jv" where
  "lookup kvs k = (case map_of kvs k of None \<Rightarrow> JUndef | Some v \<Rightarrow> v)"

text \<open>
  \<open>v.k\<close> for a name \<open>k\<close> that the program writes out and a value that is neither \<open>null\<close>
  nor \<open>undefined\<close>. The names are \<open>type\<close>, \<open>selectors\<close>, \<open>structure\<close>, \<open>properties\<close>,
  \<open>fields\<close>, \<open>selector\<close>, \<open>description\<close>, \<open>nullable\<close>, \<open>required\<close>, \<open>maxItems\<close>, \<open>items\<close>
  and \<open>length\<close>; no built-in prototype defines any of them but \<open>length\<close>, which the
  program reads from arrays only, so the own properties decide.
\<close>

fun get_prop :: "jv \<Rightarrow> string \<Rightarrow> jv" where
  "get_prop (JObj kvs) k = lookup kvs k"
| "get_prop (JArr xs) k =
     (if k = ''length'' then JNum (Fin (of_nat (length xs))) else lookup (entries (JArr xs)) k)"
| "get_prop (JStr s) k =
     (if k = ''length'' then JNum (Fin (of_nat (length s))) else lookup (entries (JStr s)) k)"
| "get_prop v k = JUndef"

text \<open>Reading a property of \<open>null\<close> or \<open>undefined\<close> throws.\<close>

fun read_prop :: "jv \<Rightarrow> string \<Rightarrow> error + jv" where
  "read_prop JUndef k = Inl TypeError"
| "read_prop JNull k = Inl TypeError"
| "read_prop v k = Inr (get_prop v k)"

text \<open>\<open>k in v\<close> for an object or array \<open>v\<close>\<close>

fun has_prop :: "jv \<Rightarrow> string \<Rightarrow> bool" where
  "has_prop (JArr xs) k = (k = ''length'' \<or> k \<in> fst ` set (entries (JArr xs)))"
| "has_prop v k = (k \<in> fst ` set (entries v))"

text \<open>
  Defining the own property \<open>k\<close> (an entry of a literal or of a spread, and an assignment
  that no setter takes): an existing key keeps its place, a new key goes last.
\<close>

fun assign :: "props \<Rightarrow> string \<Rightarrow> jv \<Rightarrow> props" where
  "assign [] k v = [(k, v)]"
| "assign ((k', v') # kvs) k v = (if k' = k then (k, v) # kvs else (k', v') # assign kvs k v)"

text \<open>
  \<open>obj[k] = v\<close> on an object that the program has built from \<open>{}\<close>, as far as its own
  properties go. The key \<open>__proto__\<close> is taken by the setter of \<open>Object.prototype\<close>, which
  replaces the prototype or does nothing and stores no property.
\<close>

definition store :: "props \<Rightarrow> string \<Rightarrow> jv \<Rightarrow> props" where
  "store kvs k v = (if k = ''__proto__'' then kvs else assign kvs k v)"

text \<open>
  \<open>v[k]\<close> for a key \<open>k\<close> that is data, on an object or array with the built-in prototype
  or on a prototype object: the own property if there is one, else what the chain gives.
  The program makes such a read only after it has replaced every value that is no object
  by \<open>{}\<close>.
\<close>

definition inherited :: "js_runtime \<Rightarrow> builtin \<Rightarrow> string \<Rightarrow> jv" where
  "inherited rt p k =
     (case protoFunction rt p k of None \<Rightarrow> JUndef | Some f \<Rightarrow> JBuiltin (BuiltinFunction f))"

fun member :: "js_runtime \<Rightarrow> jv \<Rightarrow> string \<Rightarrow> jv" where
  "member rt (JObj kvs) k =
     (case map_of kvs k of
        Some v \<Rightarrow> v
      | None \<Rightarrow> if k = ''__proto__'' then JBuiltin ObjectPrototype
                else inherited rt ObjectPrototype k)"
| "member rt (JArr xs) k =
     (if k = ''length'' then JNum (Fin (of_nat (length xs)))
      else case map_of (entries (JArr xs)) k of
             Some v \<Rightarrow> v
           | None \<Rightarrow> if k = ''__proto__'' then JBuiltin ArrayPrototype
                     else inherited rt ArrayPrototype k)"
| "member rt (JBuiltin ObjectPrototype) k =
     (if k = ''__proto__'' then JNull else inherited rt ObjectPrototype k)"
| "member rt (JBuiltin ArrayPrototype) k =
     (if k = ''length'' then JNum (Fin 0)
      else if k = ''__proto__'' then JBuiltin ObjectPrototype
      else inherited rt ArrayPrototype k)"
| "member rt v k = JUndef"

text \<open>
  The raw data object is read by key after it has been built, so its prototype is kept.
  \<open>rawData[k] = v\<close>: the setter of \<open>__proto__\<close> takes an object or \<open>null\<close> as the new
  prototype and ignores any other value; an object without prototype has no such setter.
\<close>

definition raw_set :: "built_object \<Rightarrow> string \<Rightarrow> jv \<Rightarrow> built_object" where
  "raw_set obj k v =
     (if k = ''__proto__'' \<and> fst obj \<noteq> NullProto then
        (if v = JNull then (NullProto, snd obj)
         else if typeof v = ''object'' \<or> typeof v = ''function'' then (ValueProto v, snd obj)
         else obj)
      else (fst obj, assign (snd obj) k v))"

text \<open>\<open>data[k]\<close> on such an object.\<close>

definition raw_member :: "js_runtime \<Rightarrow> built_object \<Rightarrow> string \<Rightarrow> jv" where
  "raw_member rt obj k =
     (case map_of (snd obj) k of
        Some v \<Rightarrow> v
      | None \<Rightarrow>
          (case fst obj of
             DefaultProto \<Rightarrow> member rt (JObj []) k
           | NullProto \<Rightarrow> JUndef
           | ValueProto p \<Rightarrow> if k = ''__proto__'' then p else member rt p k))"

text \<open>\<open>const { k, ...rest } = obj\<close>\<close>

definition rest_without :: "string \<Rightarrow> jv \<Rightarrow> props" where
  "rest_without k v = filter (\<lambda>(k', v'). k' \<noteq> k) (entries v)"

text \<open>A map: a plain object, possibly empty.\<close>

fun is_map :: "jv \<Rightarrow> bool" where
  "is_map (JObj kvs) = True"
| "is_map v = False"

section \<open>Schema loader\<close>

text \<open>\<open>isStructuredSchema\<close>, read as the caller's \<open>if\<close> reads it.\<close>

definition isStructuredSchema :: "jv \<Rightarrow> bool" where
  "isStructuredSchema schema =
     (truthy schema \<and>
      (truthy (get_prop schema ''type'') \<or> truthy (get_prop schema ''selectors'') \<or>
       truthy (get_prop schema ''structure'') \<or> truthy (get_prop schema ''properties'')))"

definition extracted_from :: "string \<Rightarrow> string" where
  "extracted_from s = ''Extracted from '' @ s"

definition type_names :: "string list" where
  "type_names = [''string'', ''number'', ''boolean'', ''object'', ''array'']"

text \<open>The body of the loop of \<open>convertToStructuredSchema\<close>, on the pair (selectors, structure).\<close>

fun convert_step :: "props \<times> props \<Rightarrow> string \<times> jv \<Rightarrow> props \<times> props" where
  "convert_step (selectors, structure) (field, JStr val) =
     (if CHR ''.'' \<in> set val \<or> CHR ''#'' \<in> set val \<or> CHR ''['' \<in> set val then
        (store selectors field (JStr val),
         store structure field
           (JObj [(''type'', JStr ''string''),
                  (''description'', JStr (extracted_from val)),
                  (''nullable'', JBool True)]))
      else if val \<in> set type_names then
        (selectors,
         store structure field (JObj [(''type'', JStr val), (''nullable'', JBool True)]))
      else (selectors, structure))"
| "convert_step (selectors, structure) (field, v) = (selectors, structure)"

definition canonical :: "props \<times> props \<Rightarrow> jv" where
  "canonical p = JObj [(''selectors'', JObj (fst p)), (''structure'', JObj (snd p))]"

definition convertToStructuredSchema :: "jv \<Rightarrow> error + jv" where
  "convertToStructuredSchema schema =
     (case Object_entries schema of
        Inl e \<Rightarrow> Inl e
      | Inr es \<Rightarrow> Inr (canonical (foldl convert_step ([], []) es)))"

text \<open>Case 2 of \<open>parseStructuredSchema\<close>: one entry of \<open>schema.properties\<close>.\<close>

fun properties_step :: "props \<times> props \<Rightarrow> string \<times> jv \<Rightarrow> props \<times> props" where
  "properties_step (selectors, structure) (field, propSchema) =
     (if truthy propSchema \<and> typeof propSchema = ''object'' \<and>
         has_prop propSchema ''selector'' \<and>
         typeof (get_prop propSchema ''selector'') = ''string'' then
        (store selectors field (get_prop propSchema ''selector''),
         store structure field (JObj (rest_without ''selector'' propSchema)))
      else (selectors, store structure field propSchema))"

text \<open>
  Case 3 of \<open>parseStructuredSchema\<close>: one entry of \<open>schema.fields\<close>. In the second
  branch \<open>selector.selector\<close> is a string, so the template literal is a concatenation.
\<close>

fun fields_step :: "props \<times> props \<Rightarrow> string \<times> jv \<Rightarrow> props \<times> props" where
  "fields_step (selectors, structure) (field, JStr s) =
     (store selectors field (JStr s),
      store structure field
        (JObj [(''type'', JStr ''string''),
               (''description'', JStr (extracted_from s)),
               (''nullable'', JBool True)]))"
| "fields_step (selectors, structure) (field, selectorValue) =
     (if truthy selectorValue \<and> typeof selectorValue = ''object'' \<and>
         has_prop selectorValue ''selector'' \<and>
         typeof (get_prop selectorValue ''selector'') = ''string'' then
        (store selectors field (get_prop selectorValue ''selector''),
         store structure field
           (JObj [(''type'', js_or (get_prop selectorValue ''type'') (JStr ''string'')),
                  (''description'',
                     js_or (get_prop selectorValue ''description'')
                       (case get_prop selectorValue ''selector'' of
                          JStr s \<Rightarrow> JStr (extracted_from s) | _ \<Rightarrow> JUndef)),
                  (''nullable'',
                     (if get_prop selectorValue ''nullable'' \<noteq> JUndef
                      then get_prop selectorValue ''nullable'' else JBool True))]))
      else (selectors, structure))"

definition parseStructuredSchema :: "jv \<Rightarrow> error + jv" where
  "parseStructuredSchema schema =
     (if schema = JUndef \<or> schema = JNull then Inl TypeError
      else if truthy (get_prop schema ''selectors'') \<and> truthy (get_prop schema ''structure'')
      then Inr schema
      else if truthy (get_prop schema ''type'') \<or> truthy (get_prop schema ''properties'') then
        (if truthy (get_prop schema ''properties'') then
           Inr (canonical
                  (foldl properties_step ([], []) (entries (get_prop schema ''properties''))))
         else
           Inr (JObj [(''selectors'', JObj []), (''structure'', JObj [(''root'', schema)])]))
      else if truthy (get_prop schema ''fields'') then
        Inr (canonical (foldl fields_step ([], []) (entries (get_prop schema ''fields''))))
      else convertToStructuredSchema schema)"

text \<open>
  \<open>loadStructuredSchema\<close> after \<open>JSON.parse\<close>: the argument is the parsed file. The meta-schema
  check in the first branch only logs a warning and does not change the result.
\<close>

definition loadStructuredSchema :: "jv \<Rightarrow> error + jv" where
  "loadStructuredSchema schema =
     (if isStructuredSchema schema then parseStructuredSchema schema
      else convertToStructuredSchema schema)"

section \<open>Extractor\<close>

subsection \<open>Loops that can throw\<close>

text \<open>The first exception of a loop ends it.\<close>

fun collect :: "(error + 'a) list \<Rightarrow> error + 'a list" where
  "collect [] = Inr []"
| "collect (Inl e # rs) = Inl e"
| "collect (Inr x # rs) = (case collect rs of Inl e \<Rightarrow> Inl e | Inr xs \<Rightarrow> Inr (x # xs))"

subsection \<open>Conversions of the runtime\<close>

fun join_comma :: "string list \<Rightarrow> string" where
  "join_comma [] = []"
| "join_comma [s] = s"
| "join_comma (s # t # ss) = s @ '','' @ join_comma (t # ss)"

text \<open>
  \<open>String(v)\<close> and the interpolation \<open>${v}\<close>. An object is printed by the \<open>toString\<close> it
  inherits; an own property \<open>toString\<close> of a JSON object is no function, and then neither
  it nor \<open>valueOf\<close> gives a primitive: TypeError. An array joins the texts of its elements.
\<close>

fun js_String :: "js_runtime \<Rightarrow> jv \<Rightarrow> error + string" where
  "js_String rt JUndef = Inr ''undefined''"
| "js_String rt JNull = Inr ''null''"
| "js_String rt (JBool b) = Inr (if b then ''true'' else ''false'')"
| "js_String rt (JNum n) = Inr (numToString rt n)"
| "js_String rt (JStr s) = Inr s"
| "js_String rt (JArr xs) =
     (case collect (map (\<lambda>x. if x = JNull \<or> x = JUndef then Inr [] else js_String rt x) xs) of
        Inl e \<Rightarrow> Inl e
      | Inr ss \<Rightarrow> Inr (join_comma ss))"
| "js_String rt (JObj kvs) =
     (if ''toString'' \<in> fst ` set kvs then Inl TypeError else Inr ''[object Object]'')"
| "js_String rt (JBuiltin ObjectPrototype) = Inr ''[object Object]''"
| "js_String rt (JBuiltin ArrayPrototype) = Inr []"
| "js_String rt (JBuiltin (BuiltinFunction f)) = Inr (functionSource rt f)"

text \<open>
  \<open>Number(v)\<close>, also the conversion of the right operand of \<open>len > v\<close>. For an object
  \<open>valueOf\<close> gives no primitive, so the text of the object is parsed.
\<close>

fun js_Number :: "js_runtime \<Rightarrow> jv \<Rightarrow> error + jsnum" where
  "js_Number rt JUndef = Inr NaN"
| "js_Number rt JNull = Inr (Fin 0)"
| "js_Number rt (JBool b) = Inr (if b then Fin 1 else Fin 0)"
| "js_Number rt (JNum n) = Inr n"
| "js_Number rt (JStr s) = Inr (strToNumber rt s)"
| "js_Number rt v =
     (case js_String rt v of Inl e \<Rightarrow> Inl e | Inr s \<Rightarrow> Inr (strToNumber rt s))"

text \<open>\<open>len > m\<close> for an array length\<close>

fun length_gt :: "nat \<Rightarrow> jsnum \<Rightarrow> bool" where
  "length_gt len (Fin r) = (r < of_nat len)"
| "length_gt len NegInf = True"
| "length_gt len m = False"

text \<open>\<open>xs.slice(0, m)\<close>: \<open>m\<close> is truncated towards zero, a negative end counts from the back.\<close>

fun slice_to :: "'a list \<Rightarrow> jsnum \<Rightarrow> 'a list" where
  "slice_to xs (Fin r) =
     (let k = (if 0 \<le> r then \<lfloor>r\<rfloor> else \<lceil>r\<rceil>)
      in if k < 0 then take (nat (int (length xs) + k)) xs else take (nat k) xs)"
| "slice_to xs PosInf = xs"
| "slice_to xs m = []"

text \<open>\<open>Array.isArray(v)\<close>; \<open>Array.prototype\<close> is an array, of length 0.\<close>

fun isArray :: "jv \<Rightarrow> bool" where
  "isArray (JArr xs) = True"
| "isArray (JBuiltin ArrayPrototype) = True"
| "isArray v = False"

fun elements :: "jv \<Rightarrow> jv list" where
  "elements (JArr xs) = xs"
| "elements v = []"

text \<open>
  \<open>r?.includes(name)\<close> as a condition: \<open>undefined\<close> when \<open>r\<close> is missing, the element
  test of an array, the substring test of a string, and a TypeError for any other value,
  which has no method \<open>includes\<close>.
\<close>

fun optional_includes :: "jv \<Rightarrow> string \<Rightarrow> error + bool" where
  "optional_includes JUndef name = Inr False"
| "optional_includes JNull name = Inr False"
| "optional_includes (JArr xs) name = Inr (JStr name \<in> set xs)"
| "optional_includes (JStr s) name = Inr (includes_str s name)"
| "optional_includes (JBuiltin ArrayPrototype) name = Inr False"
| "optional_includes v name = Inl TypeError"

text \<open>\<open>d.required?.includes(name)\<close>\<close>

definition required_includes :: "jv \<Rightarrow> string \<Rightarrow> error + bool" where
  "required_includes d name =
     (case read_prop d ''required'' of Inl e \<Rightarrow> Inl e | Inr r \<Rightarrow> optional_includes r name)"

subsection \<open>Loops that emit fields\<close>

text \<open>
  An iteration either assigns \<open>result[k] = v\<close> or continues without. The result object is
  not read by key afterwards; only its own properties are kept.
\<close>

fun emit :: "props \<Rightarrow> (string \<times> jv) option \<Rightarrow> props" where
  "emit result None = result"
| "emit result (Some (k, v)) = store result k v"

definition build :: "(string \<times> jv) option list \<Rightarrow> props" where
  "build rs = foldl emit [] rs"

fun jsize :: "jv \<Rightarrow> nat" where
  "jsize (JArr xs) = Suc (sum_list (map jsize xs))"
| "jsize (JObj kvs) = Suc (sum_list (map (\<lambda>kv. jsize (snd kv)) kvs))"
| "jsize v = 0"

subsection \<open>Termination of the coercion: a descriptor with a type tag is an object\<close>

lemma show_nat_digits: "set (show_nat n) \<subseteq> set digit_chars"
proof (induction n rule: show_nat.induct)
  case (1 n)
  have "length digit_chars = 10" by (simp add: digit_chars_def)
  then have d: "\<And>m. m < 10 \<Longrightarrow> digit_chars ! m \<in> set digit_chars"
    by (metis nth_mem)
  show ?case
  proof (cases "n < 10")
    case True
    then show ?thesis using d[of n] by (subst show_nat.simps) simp
  next
    case False
    then show ?thesis using 1 d[of "n mod 10"] by (subst show_nat.simps) simp
  qed
qed

lemma show_nat_not_name: "CHR ''e'' \<in> set k \<Longrightarrow> show_nat n \<noteq> k"
  using show_nat_digits[of n] by (auto simp: digit_chars_def)

lemma lookup_index_None:
  assumes "CHR ''e'' \<in> set k"
  shows "map_of (zip (map show_nat ns) vs) k = None"
proof -
  have "k \<notin> fst ` set (zip (map show_nat ns) vs)"
  proof
    assume "k \<in> fst ` set (zip (map show_nat ns) vs)"
    then obtain v where "(k, v) \<in> set (zip (map show_nat ns) vs)" by auto
    then have "k \<in> set (map show_nat ns)" by (rule set_zip_leftD)
    then show False using assms show_nat_not_name by auto
  qed
  then show ?thesis by (simp add: map_of_eq_None_iff)
qed

lemma get_prop_JStr_obj:
  assumes "get_prop s k \<noteq> JUndef" "CHR ''e'' \<in> set k" "k \<noteq> ''length''"
  shows "\<exists>kvs. s = JObj kvs"
  using assms by (cases s) (auto simp: lookup_def lookup_index_None)

lemma jsize_member: "(k, v) \<in> set kvs \<Longrightarrow> jsize v < jsize (JObj kvs)"
  by (induction kvs) auto

lemma jsize_lookup: "lookup kvs k \<noteq> JUndef \<Longrightarrow> jsize (lookup kvs k) < jsize (JObj kvs)"
  by (auto simp: lookup_def split: option.splits dest!: map_of_SomeD jsize_member)

lemma jsize_entries: "(k, v) \<in> set (entries p) \<Longrightarrow> jsize v \<le> jsize p"
proof (cases p)
  case (JArr xs)
  assume "(k, v) \<in> set (entries p)"
  then have "v \<in> set xs" using JArr by (auto dest: set_zip_rightD)
  then have "jsize v \<le> sum_list (map jsize xs)" by (induction xs) auto
  then show ?thesis using JArr by simp
next
  case (JObj kvs)
  assume "(k, v) \<in> set (entries p)"
  then show ?thesis using JObj jsize_member[of k v kvs] by simp
next
  case (JStr s)
  assume "(k, v) \<in> set (entries p)"
  then show ?thesis using JStr by (auto dest!: set_zip_rightD)
qed auto

lemma typed_schema_is_object: "get_prop schema ''type'' = JStr t \<Longrightarrow> \<exists>kvs. schema = JObj kvs"
  by (rule get_prop_JStr_obj[of schema "''type''"]) simp_all

lemma sub_schema_smaller:
  assumes "get_prop schema ''type'' = JStr t" "truthy (get_prop schema k)"
  shows "jsize (get_prop schema k) < jsize schema"
proof -
  obtain kvs where s: "schema = JObj kvs" using typed_schema_is_object[OF assms(1)] by blast
  have "lookup kvs k \<noteq> JUndef" using assms(2) s by auto
  then show ?thesis using s jsize_lookup[of kvs k] by simp
qed

lemma entry_schema_smaller:
  assumes "get_prop schema ''type'' = JStr t" "truthy (get_prop schema k)"
    and "(n, y) \<in> set (entries (get_prop schema k))"
  shows "jsize y < jsize schema"
  using sub_schema_smaller[OF assms(1,2)] jsize_entries[OF assms(3)] by simp

subsection \<open>Type coercion\<close>

text \<open>
  \<open>convertToType\<close>. The \<open>switch\<close> compares \<open>schema.type\<close> strictly with the five tags.
  Reading \<open>schema.type\<close> throws when the descriptor is \<open>null\<close> or \<open>undefined\<close>.
\<close>

function convertToType :: "js_runtime \<Rightarrow> jv \<Rightarrow> jv \<Rightarrow> error + jv" where
  "convertToType rt val schema =
     (if schema = JUndef \<or> schema = JNull then Inl TypeError
      else if get_prop schema ''type'' = JStr ''string'' then
        (case js_String rt val of Inl e \<Rightarrow> Inl e | Inr s \<Rightarrow> Inr (JStr s))
      else if get_prop schema ''type'' = JStr ''number'' then
        (case js_Number rt val of
           Inl e \<Rightarrow> Inl e
         | Inr num \<Rightarrow> Inr (JNum (if num = NaN then Fin 0 else num)))
      else if get_prop schema ''type'' = JStr ''boolean'' then
        (case val of
           JStr s \<Rightarrow> Inr (JBool (toLowerCase rt s \<in> set [''true'', ''yes'', ''1'']))
         | _ \<Rightarrow> Inr (JBool (truthy val)))
      else if get_prop schema ''type'' = JStr ''array'' then
        (let arr = (if isArray val then val else if truthy val then JArr [val] else JArr []);
             maxItems = get_prop schema ''maxItems''
         in case (if truthy maxItems then
                    (case js_Number rt maxItems of
                       Inl e \<Rightarrow> Inl e
                     | Inr m \<Rightarrow>
                         Inr (if length_gt (length (elements arr)) m
                              then JArr (slice_to (elements arr) m) else arr))
                  else Inr arr) of
              Inl e \<Rightarrow> Inl e
            | Inr sized \<Rightarrow>
                if truthy (get_prop schema ''items'') then
                  (case collect (map (\<lambda>item. convertToType rt item (get_prop schema ''items''))
                                  (elements sized)) of
                     Inl e \<Rightarrow> Inl e
                   | Inr ys \<Rightarrow> Inr (JArr ys))
                else Inr sized)
      else if get_prop schema ''type'' = JStr ''object'' then
        (let obj = (if typeof val \<noteq> ''object'' \<or> val = JNull then JObj [] else val)
         in if truthy (get_prop schema ''properties'') then
              (case collect
                      (map (\<lambda>(propName, propSchema).
                              case (if member rt obj propName \<noteq> JUndef then Inr True
                                    else required_includes propSchema propName) of
                                Inl e \<Rightarrow> Inl e
                              | Inr b \<Rightarrow>
                                  if b then
                                    (case convertToType rt (member rt obj propName) propSchema of
                                       Inl e \<Rightarrow> Inl e
                                     | Inr c \<Rightarrow> Inr (Some (propName, c)))
                                  else Inr None)
                           (entries (get_prop schema ''properties''))) of
                 Inl e \<Rightarrow> Inl e
               | Inr rs \<Rightarrow> Inr (JObj (build rs)))
            else Inr obj)
      else Inr val)"
  by pat_completeness auto
termination
proof (relation "measure (\<lambda>(rt, val, schema). jsize schema)", goal_cases)
  case 1
  show ?case by simp
next
  case (2 rt val schema x xa xb xc)
  then show ?case using sub_schema_smaller[of schema "''array''" "''items''"] by simp
next
  case (3 rt val schema x xa xb y b)
  then show ?case
    using entry_schema_smaller[of schema "''object''" "''properties''" xb y] by simp
qed

declare convertToType.simps [simp del]

subsection \<open>Field-level inclusion\<close>

text \<open>
  One iteration of the loop of \<open>validateAndStructure\<close>; \<open>data\<close> is the raw data object.
\<close>

definition validate_field ::
  "js_runtime \<Rightarrow> built_object \<Rightarrow> string \<times> jv \<Rightarrow> error + (string \<times> jv) option" where
  "validate_field rt data entry =
     (let field = fst entry; schemaType = snd entry; rawValue = raw_member rt data field in
      case (if rawValue = JUndef then
              (case required_includes schemaType field of
                 Inl e \<Rightarrow> Inl e | Inr b \<Rightarrow> Inr (\<not> b))
            else Inr False) of
        Inl e \<Rightarrow> Inl e
      | Inr skip \<Rightarrow>
          if skip then Inr None
          else if rawValue = JNull then
            (case read_prop schemaType ''nullable'' of
               Inl e \<Rightarrow> Inl e
             | Inr nullable \<Rightarrow> Inr (if truthy nullable then Some (field, JNull) else None))
          else
            (case convertToType rt rawValue schemaType of
               Inl e \<Rightarrow> Inl e
             | Inr c \<Rightarrow> Inr (Some (field, c))))"

definition validateAndStructure :: "js_runtime \<Rightarrow> built_object \<Rightarrow> jv \<Rightarrow> error + jv" where
  "validateAndStructure rt data schema =
     (case Object_entries schema of
        Inl e \<Rightarrow> Inl e
      | Inr es \<Rightarrow>
          (case collect (map (validate_field rt data) es) of
             Inl e \<Rightarrow> Inl e
           | Inr rs \<Rightarrow> Inr (JObj (build rs))))"

subsection \<open>Metadata\<close>

text \<open>\<open>addMetadata\<close>; \<open>now\<close> is \<open>new Date().toISOString()\<close>.\<close>

definition addMetadata :: "string \<Rightarrow> jv \<Rightarrow> jv" where
  "addMetadata now data =
     JObj (assign (entries data) ''_metadata''
             (JObj [(''schemaVersion'', JStr ''1.0''), (''extractedAt'', JStr now)]))"

text \<open>\<open>excludeMetadata\<close> of the output module; destructuring \<open>null\<close> or \<open>undefined\<close> throws.\<close>

definition excludeMetadata :: "jv \<Rightarrow> error + jv" where
  "excludeMetadata data =
     (if data = JUndef \<or> data = JNull then Inl TypeError
      else Inr (JObj (rest_without ''_metadata'' data)))"

subsection \<open>The document and the extraction of raw values\<close>

text \<open>
  The parsed document is the external collaborator \<open>html\<close>: a query returns the matched
  nodes in document order or throws. A node carries its text content and its \<open>href\<close>
  attribute, if it has one.
\<close>

record node =
  node_text :: string
  node_href :: "string option"

type_synonym document = "jv \<Rightarrow> error + node list"

text \<open>\<open>element.text()\<close>: the combined text of the matched nodes.\<close>

definition selection_text :: "node list \<Rightarrow> string" where
  "selection_text element = concat (map node_text element)"

text \<open>\<open>element.attr('href')\<close>: the attribute of the first matched node.\<close>

fun attr_href :: "node list \<Rightarrow> jv" where
  "attr_href [] = JUndef"
| "attr_href (el # els) = (case node_href el of None \<Rightarrow> JUndef | Some h \<Rightarrow> JStr h)"

text \<open>
  \<open>text.match(/(\d+)\s+comments?/)\<close>, the first group of the leftmost match. Digits, white
  space and the letter c exclude each other, so the greedy runs are the only candidates.
\<close>

definition match_here :: "js_runtime \<Rightarrow> string \<Rightarrow> string option" where
  "match_here rt s =
     (let ds = takeWhile (\<lambda>c. c \<in> set digit_chars) s;
          r = dropWhile (\<lambda>c. c \<in> set digit_chars) s
      in if ds \<noteq> [] \<and> takeWhile (isSpace rt) r \<noteq> [] \<and>
            startsWith (dropWhile (isSpace rt) r) ''comment''
         then Some ds else None)"

fun match_comments :: "js_runtime \<Rightarrow> string \<Rightarrow> string option" where
  "match_comments rt [] = None"
| "match_comments rt (c # cs) =
     (case match_here rt (c # cs) of Some ds \<Rightarrow> Some ds | None \<Rightarrow> match_comments rt cs)"

text \<open>
  The values that the \<open>try\<close> block of the loop of \<open>extractStructuredData\<close> computes, apart
  from its log line.
\<close>

definition extract_try :: "js_runtime \<Rightarrow> document \<Rightarrow> string \<Rightarrow> jv \<Rightarrow> error + jv" where
  "extract_try rt html fieldName selector =
     (case html selector of
        Inl e \<Rightarrow> Inl e
      | Inr element \<Rightarrow>
          Inr (if includes_str (toLowerCase rt fieldName) ''url'' then
                 (if length element > 1 then JArr (map JStr (List.map_filter node_href element))
                  else js_or (attr_href element) JNull)
               else if includes_str (toLowerCase rt fieldName) ''comment'' then
                 (let text = trim rt (selection_text element) in
                  case match_comments rt text of
                    Some ds \<Rightarrow> if ds \<noteq> [] then JStr ds else JStr text
                  | None \<Rightarrow> JStr text)
               else if length element > 1 then
                 JArr (map (\<lambda>el. JStr (trim rt (node_text el))) element)
               else if length element > 0 then JStr (trim rt (selection_text element))
               else JNull))"

text \<open>
  One iteration: the \<open>try\<close> with its \<open>catch\<close>, which stores \<open>null\<close>. The log line of the
  \<open>try\<close> block and the warning of the \<open>catch\<close> both interpolate \<open>${selector}\<close>. When that
  conversion throws, the \<open>try\<close> block is left for the \<open>catch\<close>, whose warning throws
  again, outside any \<open>try\<close>: the exception leaves the loop.
\<close>

definition extract_field :: "js_runtime \<Rightarrow> document \<Rightarrow> string \<Rightarrow> jv \<Rightarrow> error + jv" where
  "extract_field rt html fieldName selector =
     (case js_String rt selector of
        Inl e \<Rightarrow> Inl e
      | Inr printed \<Rightarrow>
          Inr (case extract_try rt html fieldName selector of Inl e \<Rightarrow> JNull | Inr v \<Rightarrow> v))"

text \<open>The loop \<open>for (const [fieldName, selector] of ...) rawData[fieldName] = ...\<close>.\<close>

fun assign_loop ::
  "(string \<Rightarrow> jv \<Rightarrow> error + jv) \<Rightarrow> built_object \<Rightarrow> props \<Rightarrow> error + built_object" where
  "assign_loop f obj [] = Inr obj"
| "assign_loop f obj ((k, s) # rest) =
     (case f k s of Inl e \<Rightarrow> Inl e | Inr v \<Rightarrow> assign_loop f (raw_set obj k v) rest)"

definition extract_raw :: "js_runtime \<Rightarrow> document \<Rightarrow> props \<Rightarrow> error + built_object" where
  "extract_raw rt html sels = assign_loop (extract_field rt html) (DefaultProto, []) sels"

text \<open>\<open>addMetadata(rawData)\<close> spreads the own properties of the raw data object.\<close>

definition extractStructuredData :: "js_runtime \<Rightarrow> string \<Rightarrow> document \<Rightarrow> jv \<Rightarrow> error + jv" where
  "extractStructuredData rt now html schema =
     (case read_prop schema ''selectors'' of
        Inl e \<Rightarrow> Inl e
      | Inr selectors \<Rightarrow>
          (case Object_entries selectors of
             Inl e \<Rightarrow> Inl e
           | Inr sels \<Rightarrow>
               (case extract_raw rt html sels of
                  Inl e \<Rightarrow> Inl e
                | Inr rawData \<Rightarrow>
                    if \<not> truthy (get_prop schema ''structure'') then
                      Inr (addMetadata now (JObj (snd rawData)))
                    else
                      (case validateAndStructure rt rawData (get_prop schema ''structure'') of
                         Inl e \<Rightarrow> Inl e
                       | Inr structuredData \<Rightarrow> Inr (addMetadata now structuredData)))))"



section \<open>A runtime and a document for evaluation\<close>

text \<open>
  An instance of the runtime used to evaluate the program on concrete inputs. It agrees
  with JavaScript on ASCII letters and ASCII white space, on the printing of natural
  numbers, and on the parsing of blank strings, of unsigned decimal integers and of strings
  that are no numeric literal. Its prototypes carry the functions of ECMAScript 2023, and
  it prints a built-in function the way V8 does. The theorems below hold for every runtime.
\<close>

definition lower_char :: "char \<Rightarrow> char" where
  "lower_char c =
     (case map_of (zip ''ABCDEFGHIJKLMNOPQRSTUVWXYZ'' ''abcdefghijklmnopqrstuvwxyz'') c of
        None \<Rightarrow> c | Some l \<Rightarrow> l)"

definition ascii_space :: "char \<Rightarrow> bool" where
  "ascii_space c = (c \<in> set [CHR '' '', CHR 0x09, CHR 0x0A, CHR 0x0B, CHR 0x0C, CHR 0x0D])"

definition digit_val :: "char \<Rightarrow> nat" where
  "digit_val c = length (takeWhile (\<lambda>d. d \<noteq> c) digit_chars)"

definition print_num :: "jsnum \<Rightarrow> string" where
  "print_num n =
     (case n of
        Fin r \<Rightarrow> if 0 \<le> r then show_nat (nat \<lfloor>r\<rfloor>) else CHR ''-'' # show_nat (nat \<lfloor>- r\<rfloor>)
      | NaN \<Rightarrow> ''NaN''
      | PosInf \<Rightarrow> ''Infinity''
      | NegInf \<Rightarrow> ''-Infinity'')"

definition parse_num :: "string \<Rightarrow> jsnum" where
  "parse_num s =
     (let t = rev (dropWhile ascii_space (rev (dropWhile ascii_space s)))
      in if list_all (\<lambda>c. c \<in> set digit_chars) t
         then Fin (of_nat (foldl (\<lambda>n c. 10 * n + digit_val c) 0 t))
         else NaN)"

definition object_functions :: "string list" where
  "object_functions =
     [''__defineGetter__'', ''__defineSetter__'', ''hasOwnProperty'', ''__lookupGetter__'',
      ''__lookupSetter__'', ''isPrototypeOf'', ''propertyIsEnumerable'', ''toString'',
      ''valueOf'', ''toLocaleString'']"

definition array_functions :: "string list" where
  "array_functions =
     [''at'', ''concat'', ''copyWithin'', ''fill'', ''find'', ''findIndex'', ''findLast'',
      ''findLastIndex'', ''lastIndexOf'', ''pop'', ''push'', ''reverse'', ''shift'',
      ''unshift'', ''slice'', ''sort'', ''splice'', ''includes'', ''indexOf'', ''join'',
      ''keys'', ''entries'', ''values'', ''forEach'', ''filter'', ''flat'', ''flatMap'',
      ''map'', ''every'', ''some'', ''reduce'', ''reduceRight'', ''toReversed'', ''toSorted'',
      ''toSpliced'', ''with'']"

fun prototype_function :: "builtin \<Rightarrow> string \<Rightarrow> string option" where
  "prototype_function ObjectPrototype k =
     (if k = ''constructor'' then Some ''Object''
      else if k \<in> set object_functions then Some k else None)"
| "prototype_function ArrayPrototype k =
     (if k = ''constructor'' then Some ''Array''
      else if k \<in> set array_functions \<or> k \<in> set object_functions then Some k else None)"
| "prototype_function (BuiltinFunction f) k = None"

definition sample_runtime :: js_runtime where
  "sample_runtime =
     \<lparr>toLowerCase = map lower_char, isSpace = ascii_space,
      numToString = print_num, strToNumber = parse_num,
      protoFunction = prototype_function,
      functionSource = (\<lambda>f. ''function '' @ f @ ''() { [native code] }'')\<rparr>"

text \<open>
  A document with three nodes matching \<open>.item\<close>, one node matching \<open>.t\<close>, one matching
  \<open>.b\<close>, and a query \<open><\<close> that throws.
\<close>

definition text_node :: "string \<Rightarrow> node" where
  "text_node s = \<lparr>node_text = s, node_href = None\<rparr>"

definition sample_document :: document where
  "sample_document selector =
     (if selector = JStr ''.item'' then Inr [text_node '' a'', text_node ''b '', text_node ''c'']
      else if selector = JStr ''.t'' then Inr [text_node ''  Hello World  '']
      else if selector = JStr ''.b'' then Inr [text_node ''y'']
      else if selector = JStr ''<'' then Inl QueryError
      else Inr [])"

section \<open>Properties of property access\<close>

lemma read_prop_Inr: "read_prop v k = Inr t \<Longrightarrow> v \<noteq> JUndef \<and> v \<noteq> JNull \<and> get_prop v k = t"
  by (cases v) auto

lemma lookup_assign: "lookup (assign kvs k v) k' = (if k' = k then v else lookup kvs k')"
  by (induction kvs) (auto simp: lookup_def)

lemma lookup_filter_neq:
  "k' \<noteq> k \<Longrightarrow> lookup (filter (\<lambda>(a, b). a \<noteq> k) kvs) k' = lookup kvs k'"
  by (induction kvs) (auto simp: lookup_def)

lemma keys_filter: "fst ` set (filter (\<lambda>(a, b). a \<noteq> k) kvs) = fst ` set kvs - {k}"
  by (induction kvs) auto

lemma lookup_absent:
  assumes "k \<notin> fst ` set kvs"
  shows "lookup kvs k = JUndef"
proof -
  have "map_of kvs k = None" using assms by (simp add: map_of_eq_None_iff)
  then show ?thesis by (simp add: lookup_def)
qed

lemma get_prop_obj_not_null: "get_prop v k = JObj m \<Longrightarrow> v \<noteq> JUndef \<and> v \<noteq> JNull"
  by (cases v) auto

section \<open>Properties of the emitting loops\<close>

lemma keys_assign: "fst ` set (assign kvs k v) = insert k (fst ` set kvs)"
  by (induction kvs k v rule: assign.induct) (simp_all add: insert_commute)

lemma keys_store:
  "fst ` set (store kvs k v) = (if k = ''__proto__'' then fst ` set kvs else insert k (fst ` set kvs))"
  by (simp add: store_def keys_assign)

lemma lookup_store:
  "lookup (store kvs k v) k' = (if k' = k \<and> k \<noteq> ''__proto__'' then v else lookup kvs k')"
  by (simp add: store_def lookup_assign)

lemma collect_Inr:
  "collect (map g es) = Inr rs \<Longrightarrow> rs = map (\<lambda>e. case g e of Inr r \<Rightarrow> r) es \<and> (\<forall>e\<in>set es. \<exists>r. g e = Inr r)"
proof (induction es arbitrary: rs)
  case Nil
  then show ?case by simp
next
  case (Cons e es)
  then show ?case
    by (cases "g e"; cases "collect (map g es)") auto
qed

lemma keys_foldl_emit:
  "fst ` set (foldl emit acc rs)
     = fst ` set acc \<union> {k. k \<noteq> ''__proto__'' \<and> (\<exists>v. Some (k, v) \<in> set rs)}"
proof (induction rs arbitrary: acc)
  case Nil
  then show ?case by simp
next
  case (Cons r rs)
  show ?case
  proof (cases r)
    case None
    then show ?thesis using Cons[of acc] by auto
  next
    case (Some kv)
    obtain k v where kv: "kv = (k, v)" by (cases kv)
    show ?thesis using Cons[of "store acc k v"] Some kv by (auto simp: keys_store split: if_splits)
  qed
qed

lemma lookup_foldl_emit_absent:
  "k = ''__proto__'' \<or> (\<forall>v. Some (k, v) \<notin> set rs) \<Longrightarrow>
   lookup (foldl emit acc rs) k = lookup acc k"
proof (induction rs arbitrary: acc)
  case Nil
  then show ?case by simp
next
  case (Cons r rs)
  show ?case
  proof (cases r)
    case None
    then show ?thesis using Cons by simp
  next
    case (Some kv)
    obtain k' v where kv: "kv = (k', v)" by (cases kv)
    have "k = ''__proto__'' \<or> k' \<noteq> k" using Cons.prems Some kv by auto
    then have "lookup (store acc k' v) k = lookup acc k" by (auto simp: lookup_store)
    moreover have "lookup (foldl emit (store acc k' v) rs) k = lookup (store acc k' v) k"
      using Cons.IH[of "store acc k' v"] Cons.prems by auto
    ultimately show ?thesis using Some kv by simp
  qed
qed

lemma lookup_foldl_emit_present:
  assumes "Some (k, v) \<in> set rs" and "\<And>v'. Some (k, v') \<in> set rs \<Longrightarrow> v' = v"
    and "k \<noteq> ''__proto__''"
  shows "lookup (foldl emit acc rs) k = v"
  using assms(1,2)
proof (induction rs arbitrary: acc)
  case Nil
  then show ?case by simp
next
  case (Cons r rs)
  show ?case
  proof (cases "Some (k, v) \<in> set rs")
    case True
    have "lookup (foldl emit (emit acc r) rs) k = v"
      using Cons.IH[OF True] Cons.prems(2) by simp
    then show ?thesis by simp
  next
    case False
    then have r: "r = Some (k, v)" using Cons.prems(1) by simp
    have "\<forall>v'. Some (k, v') \<notin> set rs" using False Cons.prems(2) by auto
    then have "lookup (foldl emit (store acc k v) rs) k = lookup (store acc k v) k"
      using lookup_foldl_emit_absent[of k rs "store acc k v"] by simp
    then show ?thesis using r assms(3) by (simp add: lookup_store)
  qed
qed

lemma unique_key: "distinct (map fst es) \<Longrightarrow> e \<in> set es \<Longrightarrow> e' \<in> set es \<Longrightarrow> fst e = fst e' \<Longrightarrow> e = e'"
  by (induction es) (auto simp: image_iff)

text \<open>The emitting loop over the entries of a well-formed object.\<close>

lemma emit_loop:
  assumes c: "collect (map g es) = Inr rs"
    and d: "distinct (map fst es)"
    and own: "\<forall>e\<in>set es. \<forall>k v. g e = Inr (Some (k, v)) \<longrightarrow> k = fst e"
    and e: "e \<in> set es"
    and np: "fst e \<noteq> ''__proto__''"
  shows "(g e = Inr None \<and> fst e \<notin> fst ` set (build rs) \<and> lookup (build rs) (fst e) = JUndef)
       \<or> (\<exists>v. g e = Inr (Some (fst e, v)) \<and> fst e \<in> fst ` set (build rs)
              \<and> lookup (build rs) (fst e) = v)"
proof -
  from collect_Inr[OF c] have rs: "rs = map (\<lambda>e. case g e of Inr r \<Rightarrow> r) es"
    and tot: "\<forall>e\<in>set es. \<exists>r. g e = Inr r" by auto
  have mem: "\<And>k v. Some (k, v) \<in> set rs \<longleftrightarrow> (\<exists>e'\<in>set es. g e' = Inr (Some (k, v)))"
    using tot unfolding rs by (force simp: image_iff)
  from tot e obtain r where r: "g e = Inr r" by blast
  show ?thesis
  proof (cases r)
    case None
    have no: "\<forall>v. Some (fst e, v) \<notin> set rs"
    proof (intro allI notI)
      fix v assume "Some (fst e, v) \<in> set rs"
      then obtain e' where e': "e' \<in> set es" "g e' = Inr (Some (fst e, v))" using mem by blast
      then have "fst e = fst e'" using own by blast
      then have "e = e'" using unique_key[OF d e e'(1)] by simp
      then show False using e' r None by simp
    qed
    have "lookup (build rs) (fst e) = JUndef"
      unfolding build_def using lookup_foldl_emit_absent[of "fst e" rs "[]"] no
      by (simp add: lookup_def)
    moreover have "fst e \<notin> fst ` set (build rs)"
      unfolding build_def keys_foldl_emit using no by simp
    ultimately show ?thesis using r None by simp
  next
    case (Some kv)
    obtain k v where kv: "kv = (k, v)" by (cases kv)
    have k: "k = fst e" using own e r Some kv by simp
    have inrs: "Some (fst e, v) \<in> set rs" using mem e r Some kv k by blast
    have uniq: "\<And>v'. Some (fst e, v') \<in> set rs \<Longrightarrow> v' = v"
    proof -
      fix v' assume "Some (fst e, v') \<in> set rs"
      then obtain e' where e': "e' \<in> set es" "g e' = Inr (Some (fst e, v'))" using mem by blast
      then have "fst e = fst e'" using own by blast
      then have "e = e'" using unique_key[OF d e e'(1)] by simp
      then show "v' = v" using e' r Some kv by simp
    qed
    have "lookup (build rs) (fst e) = v"
      unfolding build_def by (rule lookup_foldl_emit_present[OF inrs uniq np])
    moreover have "fst e \<in> fst ` set (build rs)"
      unfolding build_def keys_foldl_emit using inrs np by auto
    ultimately show ?thesis using r Some kv k by simp
  qed
qed

lemma emit_loop_keys:
  assumes c: "collect (map g es) = Inr rs"
    and own: "\<forall>e\<in>set es. \<forall>k v. g e = Inr (Some (k, v)) \<longrightarrow> k = fst e"
  shows "fst ` set (build rs) \<subseteq> fst ` set es - {''__proto__''}"
proof -
  from collect_Inr[OF c] have rs: "rs = map (\<lambda>e. case g e of Inr r \<Rightarrow> r) es"
    and tot: "\<forall>e\<in>set es. \<exists>r. g e = Inr r" by auto
  have "\<And>k v. Some (k, v) \<in> set rs \<Longrightarrow> k \<in> fst ` set es"
  proof -
    fix k v assume "Some (k, v) \<in> set rs"
    then obtain e' where e': "e' \<in> set es" "g e' = Inr (Some (k, v))"
      using tot unfolding rs by (force simp: image_iff)
    then show "k \<in> fst ` set es" using own by force
  qed
  then show ?thesis unfolding build_def keys_foldl_emit by auto
qed

section \<open>Schema loader: the legacy fields shape\<close>

lemma legacy_shape_takes_flat_branch:
  assumes "''type'' \<notin> fst ` set kvs" "''selectors'' \<notin> fst ` set kvs"
    and "''structure'' \<notin> fst ` set kvs" "''properties'' \<notin> fst ` set kvs"
  shows "loadStructuredSchema (JObj kvs) = convertToStructuredSchema (JObj kvs)"
  using assms by (simp add: loadStructuredSchema_def isStructuredSchema_def lookup_absent)

text \<open>
  C1. The claim: a schema that has a \<open>fields\<close> map and none of the keys \<open>selectors\<close>,
  \<open>structure\<close>, \<open>type\<close>, \<open>properties\<close> is normalized entry by entry of \<open>fields\<close>. The
  loader does not do this. \<open>isStructuredSchema\<close> does not look at \<open>fields\<close>, so such a
  schema is sent to \<open>convertToStructuredSchema\<close>, which skips the entry \<open>fields\<close> because
  its value is no string: the result has empty \<open>selectors\<close> and \<open>structure\<close>. Case 3 of
  \<open>parseStructuredSchema\<close>, called on the same schema, produces what the claim states.
\<close>

theorem legacy_fields_schema_is_not_parsed:
  "loadStructuredSchema (JObj [(''fields'', JObj [(''title'', JStr ''.t'')])])
     = Inr (JObj [(''selectors'', JObj []), (''structure'', JObj [])])
   \<and> parseStructuredSchema (JObj [(''fields'', JObj [(''title'', JStr ''.t'')])])
     = Inr (JObj [(''selectors'', JObj [(''title'', JStr ''.t'')]),
                  (''structure'',
                   JObj [(''title'',
                          JObj [(''type'', JStr ''string''),
                                (''description'', JStr ''Extracted from .t''),
                                (''nullable'', JBool True)])])])"
  by (simp add: loadStructuredSchema_def isStructuredSchema_def parseStructuredSchema_def
      convertToStructuredSchema_def canonical_def extracted_from_def lookup_def store_def)

section \<open>Schema loader: canonical form\<close>

lemma truthy_prop_is_object:
  assumes "truthy (get_prop x k)" "CHR ''e'' \<in> set k" "k \<noteq> ''length''"
  shows "\<exists>kvs. x = JObj kvs"
proof -
  have "get_prop x k \<noteq> JUndef" using assms(1) by auto
  then show ?thesis using assms(2,3) by (rule get_prop_JStr_obj)
qed

lemma convertToStructuredSchema_shape:
  "convertToStructuredSchema x = Inr r \<Longrightarrow>
   \<exists>sel st. r = JObj [(''selectors'', JObj sel), (''structure'', JObj st)]"
  by (auto simp: convertToStructuredSchema_def canonical_def split: sum.splits)

lemma parseStructuredSchema_shape:
  assumes "parseStructuredSchema x = Inr r"
  shows "(r = x \<and> truthy (get_prop x ''selectors'') \<and> truthy (get_prop x ''structure''))
       \<or> (\<exists>sel st. r = JObj [(''selectors'', JObj sel), (''structure'', JObj st)])"
  using assms convertToStructuredSchema_shape[of x r]
  by (auto simp: parseStructuredSchema_def canonical_def split: if_splits)

lemma loadStructuredSchema_shape:
  assumes "loadStructuredSchema x = Inr r"
  shows "(r = x \<and> truthy (get_prop x ''selectors'') \<and> truthy (get_prop x ''structure''))
       \<or> (\<exists>sel st. r = JObj [(''selectors'', JObj sel), (''structure'', JObj st)])"
  using assms parseStructuredSchema_shape[of x r] convertToStructuredSchema_shape[of x r]
  by (auto simp: loadStructuredSchema_def split: if_splits)

lemma canonical_is_fixed:
  assumes "truthy (get_prop x ''selectors'')" "truthy (get_prop x ''structure'')"
  shows "loadStructuredSchema x = Inr x"
proof -
  obtain kvs where x: "x = JObj kvs"
    using truthy_prop_is_object[OF assms(1)] by auto
  show ?thesis using assms
    by (simp add: x loadStructuredSchema_def isStructuredSchema_def parseStructuredSchema_def)
qed

lemma loadStructuredSchema_returns:
  assumes "x \<noteq> JUndef" "x \<noteq> JNull"
  shows "\<exists>r. loadStructuredSchema x = Inr r"
  using assms
  by (cases x) (auto simp: loadStructuredSchema_def parseStructuredSchema_def
      convertToStructuredSchema_def)

text \<open>
  C5, amended. Normalization is idempotent: normalizing the result of a normalization
  returns it unchanged, and a normalization that throws (on \<open>null\<close>) throws either way.
  A schema whose \<open>selectors\<close> and \<open>structure\<close> values are both truthy is returned
  unchanged, so canonical form is a fixed point.
\<close>

theorem normalization_idempotent:
  "(case loadStructuredSchema x of Inl e \<Rightarrow> Inl e | Inr y \<Rightarrow> loadStructuredSchema y)
     = loadStructuredSchema x
   \<and> (truthy (get_prop x ''selectors'') \<and> truthy (get_prop x ''structure'') \<longrightarrow>
        loadStructuredSchema x = Inr x)"
proof -
  have "(case loadStructuredSchema x of Inl e \<Rightarrow> Inl e | Inr y \<Rightarrow> loadStructuredSchema y)
     = loadStructuredSchema x"
  proof (cases "loadStructuredSchema x")
    case (Inl e)
    then show ?thesis by simp
  next
    case (Inr r)
    from loadStructuredSchema_shape[OF Inr]
    have "truthy (get_prop r ''selectors'') \<and> truthy (get_prop r ''structure'')"
      by (auto simp: lookup_def)
    then have "loadStructuredSchema r = Inr r" using canonical_is_fixed by blast
    then show ?thesis using Inr by simp
  qed
  then show ?thesis using canonical_is_fixed by blast
qed

theorem normalization_idempotent_witness:
  "truthy (get_prop (JObj [(''selectors'', JObj [(''t'', JStr ''.t'')]), (''structure'', JObj [])])
       ''selectors'')
   \<and> truthy (get_prop (JObj [(''selectors'', JObj [(''t'', JStr ''.t'')]), (''structure'', JObj [])])
       ''structure'')
   \<and> loadStructuredSchema (JObj [(''selectors'', JObj [(''t'', JStr ''.t'')]), (''structure'', JObj [])])
     = Inr (JObj [(''selectors'', JObj [(''t'', JStr ''.t'')]), (''structure'', JObj [])])"
proof -
  let ?x = "JObj [(''selectors'', JObj [(''t'', JStr ''.t'')]), (''structure'', JObj [])]"
  have a: "truthy (get_prop ?x ''selectors'')" by (simp add: lookup_def)
  have b: "truthy (get_prop ?x ''structure'')" by (simp add: lookup_def)
  from normalization_idempotent[of ?x] a b have "loadStructuredSchema ?x = Inr ?x" by blast
  with a b show ?thesis by blast
qed

text \<open>
  C5 as stated fails for an object that carries both keys with a falsy value: with
  \<open>structure: null\<close> the schema is not returned unchanged, it is rebuilt by the flat-map
  fallback, which drops its selectors.
\<close>

theorem falsy_structure_counterexample:
  "has_prop (JObj [(''selectors'', JObj [(''t'', JStr ''.t'')]), (''structure'', JNull)]) ''selectors''
   \<and> has_prop (JObj [(''selectors'', JObj [(''t'', JStr ''.t'')]), (''structure'', JNull)]) ''structure''
   \<and> loadStructuredSchema (JObj [(''selectors'', JObj [(''t'', JStr ''.t'')]), (''structure'', JNull)])
     = Inr (JObj [(''selectors'', JObj []), (''structure'', JObj [])])"
  by (simp add: loadStructuredSchema_def isStructuredSchema_def parseStructuredSchema_def
      convertToStructuredSchema_def canonical_def lookup_def store_def)

text \<open>
  C10, amended. Every result of the normalization is an object that has both the key
  \<open>selectors\<close> and the key \<open>structure\<close>, with truthy values, so that the extractor can
  enumerate \<open>selectors\<close>. Both values are maps in every branch that builds the result;
  the already-canonical branch returns its input with whatever values it carries.
\<close>

theorem normalized_schema_has_both_keys:
  assumes "loadStructuredSchema x = Inr r"
  shows "\<exists>kvs. r = JObj kvs
       \<and> ''selectors'' \<in> fst ` set kvs \<and> ''structure'' \<in> fst ` set kvs
       \<and> truthy (get_prop r ''selectors'') \<and> truthy (get_prop r ''structure'')
       \<and> (\<exists>sels. Object_entries (get_prop r ''selectors'') = Inr sels)
       \<and> (r = x \<or> (is_map (get_prop r ''selectors'') \<and> is_map (get_prop r ''structure'')))"
proof -
  from loadStructuredSchema_shape[OF assms]
  have t: "truthy (get_prop r ''selectors'')" "truthy (get_prop r ''structure'')"
    and m: "r = x \<or> (is_map (get_prop r ''selectors'') \<and> is_map (get_prop r ''structure''))"
    by (auto simp: lookup_def)
  obtain kvs where r: "r = JObj kvs" using truthy_prop_is_object[OF t(1)] by auto
  have k: "''selectors'' \<in> fst ` set kvs" "''structure'' \<in> fst ` set kvs"
    using t r lookup_absent[of _ kvs] by fastforce+
  have "\<exists>sels. Object_entries (get_prop r ''selectors'') = Inr sels"
    using t(1) by (cases "get_prop r ''selectors''") auto
  then show ?thesis using r k t m by blast
qed

theorem normalized_schema_has_both_keys_witness:
  "loadStructuredSchema (JObj [(''title'', JStr ''.foo'')])
     = Inr (JObj [(''selectors'', JObj [(''title'', JStr ''.foo'')]),
                  (''structure'',
                   JObj [(''title'',
                          JObj [(''type'', JStr ''string''),
                                (''description'', JStr ''Extracted from .foo''),
                                (''nullable'', JBool True)])])])
   \<and> is_map (get_prop (JObj [(''selectors'', JObj [(''title'', JStr ''.foo'')]),
                  (''structure'',
                   JObj [(''title'',
                          JObj [(''type'', JStr ''string''),
                                (''description'', JStr ''Extracted from .foo''),
                                (''nullable'', JBool True)])])]) ''selectors'')"
proof -
  let ?r = "JObj [(''selectors'', JObj [(''title'', JStr ''.foo'')]),
                  (''structure'',
                   JObj [(''title'',
                          JObj [(''type'', JStr ''string''),
                                (''description'', JStr ''Extracted from .foo''),
                                (''nullable'', JBool True)])])]"
  have l: "loadStructuredSchema (JObj [(''title'', JStr ''.foo'')]) = Inr ?r"
    by (simp add: loadStructuredSchema_def isStructuredSchema_def
      convertToStructuredSchema_def canonical_def extracted_from_def lookup_def store_def)
  have ne: "?r \<noteq> JObj [(''title'', JStr ''.foo'')]" by simp
  from normalized_schema_has_both_keys[OF l] ne have "is_map (get_prop ?r ''selectors'')"
    by blast
  with l show ?thesis by blast
qed

text \<open>
  C10 as stated fails in the already-canonical branch, which does not check its input:
  here \<open>selectors\<close> is a string, not a map.
\<close>

theorem unchecked_canonical_counterexample:
  "loadStructuredSchema (JObj [(''selectors'', JStr ''a''), (''structure'', JStr ''b'')])
     = Inr (JObj [(''selectors'', JStr ''a''), (''structure'', JStr ''b'')])
   \<and> \<not> is_map (get_prop (JObj [(''selectors'', JStr ''a''), (''structure'', JStr ''b'')])
            ''selectors'')"
  by (simp add: loadStructuredSchema_def isStructuredSchema_def parseStructuredSchema_def
      lookup_def)

section \<open>Field-level inclusion: null values\<close>

lemma validate_field_own_key:
  "validate_field rt data e = Inr (Some (k, v)) \<Longrightarrow> k = fst e"
  by (auto simp: validate_field_def Let_def split: sum.splits if_splits)

lemma validate_field_null:
  assumes "raw_member rt data field = JNull"
  shows "validate_field rt data (field, d) =
         (case read_prop d ''nullable'' of
            Inl err \<Rightarrow> Inl err
          | Inr nullable \<Rightarrow> Inr (if truthy nullable then Some (field, JNull) else None))"
  using assms by (simp add: validate_field_def Let_def)

lemma validateAndStructure_null_policy:
  assumes ok: "validateAndStructure rt data (JObj st) = Inr out"
    and wf: "wf_obj st"
    and f: "(field, d) \<in> set st"
    and np: "field \<noteq> ''__proto__''"
    and null: "raw_member rt data field = JNull"
  shows "(truthy (get_prop d ''nullable'') \<longrightarrow>
            field \<in> fst ` set (entries out) \<and> get_prop out field = JNull)
       \<and> (\<not> truthy (get_prop d ''nullable'') \<longrightarrow>
            field \<notin> fst ` set (entries out) \<and> get_prop out field = JUndef)"
proof -
  from ok obtain rs where c: "collect (map (validate_field rt data) st) = Inr rs"
    and out: "out = JObj (build rs)"
    by (auto simp: validateAndStructure_def split: sum.splits)
  have d: "distinct (map fst st)" using wf by (simp add: wf_obj_def)
  have own: "\<forall>e\<in>set st. \<forall>k v. validate_field rt data e = Inr (Some (k, v)) \<longrightarrow> k = fst e"
    using validate_field_own_key by blast
  have np': "fst (field, d) \<noteq> ''__proto__''" using np by simp
  note loop = emit_loop[OF c d own f np', simplified]
  have vf: "validate_field rt data (field, d) =
         (case read_prop d ''nullable'' of
            Inl err \<Rightarrow> Inl err
          | Inr nullable \<Rightarrow> Inr (if truthy nullable then Some (field, JNull) else None))"
    using null by (rule validate_field_null)
  from loop vf obtain n where n: "read_prop d ''nullable'' = Inr n"
    by (cases "read_prop d ''nullable''") auto
  then have g: "get_prop d ''nullable'' = n" using read_prop_Inr by blast
  show ?thesis using loop vf n g out by (auto split: if_splits)
qed

text \<open>
  C2. The claim: a field whose raw value is \<open>null\<close> is absent when its descriptor has
  \<open>nullable: false\<close> and present with value \<open>null\<close> when it has \<open>nullable: true\<close> or no
  \<open>nullable\<close> at all. \<open>validateAndStructure\<close> tests \<open>schemaType.nullable\<close> for truthiness
  (see \<open>validateAndStructure_null_policy\<close>), so a descriptor without \<open>nullable\<close> drops the
  field, while the schema loader fills in \<open>nullable: true\<close> where it builds descriptors.
  The raw data object here is \<open>{title: null}\<close>.
\<close>

theorem null_field_without_nullable_is_dropped:
  "validateAndStructure rt (DefaultProto, [(''title'', JNull)])
       (JObj [(''title'', JObj [(''type'', JStr ''string'')])]) = Inr (JObj [])
   \<and> validateAndStructure rt (DefaultProto, [(''title'', JNull)])
       (JObj [(''title'', JObj [(''type'', JStr ''string''), (''nullable'', JBool True)])])
       = Inr (JObj [(''title'', JNull)])"
  by (simp add: validateAndStructure_def validate_field_def raw_member_def lookup_def build_def
      store_def)

section \<open>Type coercion: objects with declared properties\<close>




text \<open>
  A member that the raw object inherits counts as present: the empty raw object has a
  \<open>constructor\<close>, which the descriptor of type \<open>string\<close> prints.
\<close>

lemma inherited_member_is_coerced:
  "convertToType sample_runtime (JObj [])
     (JObj [(''type'', JStr ''object''),
            (''properties'', JObj [(''constructor'', JObj [(''type'', JStr ''string'')])])])
   = Inr (JObj [(''constructor'', JStr ''function Object() { [native code] }'')])"
  by (simp add: convertToType.simps lookup_def build_def required_includes_def store_def
      sample_runtime_def inherited_def object_functions_def)

section \<open>Type coercion: the default branch\<close>

text \<open>
  C9. A descriptor whose \<open>type\<close> tag can be read and is none of \<open>"string"\<close>,
  \<open>"number"\<close>, \<open>"boolean"\<close>, \<open>"array"\<close>, \<open>"object"\<close> (the tag \<open>"null"\<close>, a missing tag
  or a tag that is no string included) falls to the \<open>default\<close> branch of the switch: the
  coercion returns the raw value unchanged and does not throw.
\<close>

theorem convertToType_unknown_tag:
  assumes "read_prop schema ''type'' = Inr t" and "t \<notin> JStr ` set type_names"
  shows "convertToType rt val schema = Inr val"
proof -
  from assms(1) have s: "schema \<noteq> JUndef" "schema \<noteq> JNull" "get_prop schema ''type'' = t"
    using read_prop_Inr by blast+
  from assms(2) have "t \<noteq> JStr ''string''" "t \<noteq> JStr ''number''" "t \<noteq> JStr ''boolean''"
    "t \<noteq> JStr ''array''" "t \<noteq> JStr ''object''"
    by (auto simp: type_names_def)
  with s show ?thesis by (subst convertToType.simps) simp
qed

theorem convertToType_unknown_tag_witness:
  "read_prop (JObj [(''type'', JStr ''null'')]) ''type'' = Inr (JStr ''null'')
   \<and> JStr ''null'' \<notin> JStr ` set type_names
   \<and> convertToType sample_runtime (JArr [JStr ''a'', JNull]) (JObj [(''type'', JStr ''null'')])
       = Inr (JArr [JStr ''a'', JNull])"
proof -
  have r: "read_prop (JObj [(''type'', JStr ''null'')]) ''type'' = Inr (JStr ''null'')"
    by (simp add: lookup_def)
  have n: "JStr ''null'' \<notin> JStr ` set type_names"
    by (simp add: type_names_def)
  show ?thesis using r n convertToType_unknown_tag[OF r n] by simp
qed

section \<open>Metadata\<close>

text \<open>
  C8. In every output of \<open>addMetadata\<close> the entry \<open>_metadata.schemaVersion\<close> is the string
  \<open>"1.0"\<close>. \<open>excludeMetadata\<close> of such an output succeeds, its keys are the keys of the
  output without \<open>_metadata\<close>, and every other key has the value it had in the output.
\<close>

theorem metadata_version_and_exclusion:
  "get_prop (get_prop (addMetadata now data) ''_metadata'') ''schemaVersion'' = JStr ''1.0''
   \<and> (\<exists>rest. excludeMetadata (addMetadata now data) = Inr (JObj rest)
        \<and> fst ` set rest = fst ` set (entries (addMetadata now data)) - {''_metadata''}
        \<and> (\<forall>k. k \<noteq> ''_metadata'' \<longrightarrow>
              get_prop (JObj rest) k = get_prop (addMetadata now data) k))"
proof -
  define out where "out = entries (addMetadata now data)"
  have a: "addMetadata now data = JObj out"
    by (simp add: out_def addMetadata_def)
  have v: "get_prop (get_prop (JObj out) ''_metadata'') ''schemaVersion'' = JStr ''1.0''"
    by (simp add: out_def addMetadata_def lookup_assign) (simp add: lookup_def)
  have e: "excludeMetadata (JObj out) = Inr (JObj (filter (\<lambda>(a, b). a \<noteq> ''_metadata'') out))"
    by (simp add: excludeMetadata_def rest_without_def)
  have k: "fst ` set (filter (\<lambda>(a, b). a \<noteq> ''_metadata'') out) = fst ` set out - {''_metadata''}"
    by (rule keys_filter)
  have f: "\<forall>k. k \<noteq> ''_metadata'' \<longrightarrow>
      get_prop (JObj (filter (\<lambda>(a, b). a \<noteq> ''_metadata'') out)) k = get_prop (JObj out) k"
    by (simp add: lookup_filter_neq)
  show ?thesis
    unfolding a using v e k f by simp
qed

theorem metadata_version_and_exclusion_witness:
  "get_prop (get_prop (addMetadata ''T'' (JObj [(''title'', JStr ''x'')])) ''_metadata'')
       ''schemaVersion'' = JStr ''1.0''
   \<and> excludeMetadata (addMetadata ''T'' (JObj [(''title'', JStr ''x'')]))
       = Inr (JObj [(''title'', JStr ''x'')])
   \<and> get_prop (JObj [(''title'', JStr ''x'')]) ''title''
       = get_prop (addMetadata ''T'' (JObj [(''title'', JStr ''x'')])) ''title''"
  using metadata_version_and_exclusion[of "''T''" "JObj [(''title'', JStr ''x'')]"]
  by (simp add: addMetadata_def excludeMetadata_def rest_without_def lookup_def)

section \<open>Extraction of raw values\<close>










lemmas sample_eval =
  sample_runtime_def sample_document_def text_node_def trim_def ascii_space_def lower_char_def
  extract_raw_def extract_field_def extract_try_def selection_text_def lookup_def
  raw_set_def raw_member_def






lemmas pipeline_eval =
  sample_eval extractStructuredData_def validateAndStructure_def validate_field_def
  convertToType.simps build_def store_def addMetadata_def



section \<open>Fields without a descriptor\<close>

text \<open>
  C4, amended. When the schema has a \<open>structure\<close> map, the coercion stage emits only the
  fields declared in \<open>structure\<close>: a field that is absent from \<open>structure\<close> (whether or not
  it has a selector) is absent from the structured output. Only a schema without a truthy
  \<open>structure\<close> returns the raw values as they are.
\<close>

theorem undeclared_field_is_dropped:
  assumes sel: "get_prop schema ''selectors'' = JObj sels"
    and st: "get_prop schema ''structure'' = JObj st"
    and absent: "field \<notin> fst ` set st"
    and nm: "field \<noteq> ''_metadata''"
    and ok: "extractStructuredData rt now html schema = Inr out"
  shows "field \<notin> fst ` set (entries out) \<and> get_prop out field = JUndef"
proof -
  have nn: "schema \<noteq> JUndef" "schema \<noteq> JNull" using get_prop_obj_not_null[OF sel] by auto
  then have rp: "read_prop schema ''selectors'' = Inr (JObj sels)"
    using sel by (cases schema) auto
  from ok rp st obtain raw sd where v: "validateAndStructure rt raw (JObj st) = Inr sd"
    and out: "out = addMetadata now sd"
    by (auto simp: extractStructuredData_def split: sum.splits)
  from v obtain rs where c: "collect (map (validate_field rt raw) st) = Inr rs"
    and sd: "sd = JObj (build rs)"
    by (auto simp: validateAndStructure_def split: sum.splits)
  have own: "\<forall>e\<in>set st. \<forall>k v. validate_field rt raw e = Inr (Some (k, v)) \<longrightarrow> k = fst e"
    using validate_field_own_key by blast
  have "fst ` set (build rs) \<subseteq> fst ` set st - {''__proto__''}"
    by (rule emit_loop_keys[OF c own])
  then have "field \<notin> fst ` set (build rs)" using absent by auto
  then have k: "field \<notin> fst ` set (entries out)"
    using nm by (simp add: out sd addMetadata_def keys_assign)
  then have "get_prop out field = JUndef"
    using lookup_absent[of field "entries out"] by (simp add: out addMetadata_def)
  with k show ?thesis by simp
qed

theorem undeclared_field_is_dropped_witness:
  "get_prop (JObj [(''selectors'', JObj [(''a'', JStr ''.t''), (''b'', JStr ''.b'')]),
                   (''structure'', JObj [(''a'', JObj [(''type'', JStr ''string'')])])])
       ''structure'' = JObj [(''a'', JObj [(''type'', JStr ''string'')])]
   \<and> ''b'' \<notin> fst ` set [(''a'', JObj [(''type'', JStr ''string'')])]
   \<and> get_prop (JObj [(''a'', JStr ''Hello World''),
                  (''_metadata'',
                   JObj [(''schemaVersion'', JStr ''1.0''), (''extractedAt'', JStr ''T'')])])
       ''b'' = JUndef"
proof -
  let ?sels = "[(''a'', JStr ''.t''), (''b'', JStr ''.b'')]"
  let ?st = "[(''a'', JObj [(''type'', JStr ''string'')])]"
  let ?schema = "JObj [(''selectors'', JObj ?sels), (''structure'', JObj ?st)]"
  let ?out = "JObj [(''a'', JStr ''Hello World''),
                  (''_metadata'',
                   JObj [(''schemaVersion'', JStr ''1.0''), (''extractedAt'', JStr ''T'')])]"
  have sel: "get_prop ?schema ''selectors'' = JObj ?sels" by (simp add: lookup_def)
  have st: "get_prop ?schema ''structure'' = JObj ?st" by (simp add: lookup_def)
  have absent: "''b'' \<notin> fst ` set ?st" by simp
  have nm: "''b'' \<noteq> ''_metadata''" by simp
  have ok: "extractStructuredData sample_runtime ''T'' sample_document ?schema = Inr ?out"
    by (simp add: pipeline_eval)
  from undeclared_field_is_dropped[where html = sample_document, OF sel st absent nm ok] st absent
  show ?thesis by blast
qed

text \<open>
  C4 as stated fails: the field \<open>b\<close> has a selector and the raw value \<open>"y"\<close>, it has no
  descriptor, and the structured output does not contain it.
\<close>

theorem undeclared_field_counterexample:
  "extract_raw sample_runtime sample_document [(''a'', JStr ''.t''), (''b'', JStr ''.b'')]
     = Inr (DefaultProto, [(''a'', JStr ''Hello World''), (''b'', JStr ''y'')])
   \<and> extractStructuredData sample_runtime ''T'' sample_document
       (JObj [(''selectors'', JObj [(''a'', JStr ''.t''), (''b'', JStr ''.b'')]),
              (''structure'', JObj [(''a'', JObj [(''type'', JStr ''string'')])])])
     = Inr (JObj [(''a'', JStr ''Hello World''),
                  (''_metadata'',
                   JObj [(''schemaVersion'', JStr ''1.0''), (''extractedAt'', JStr ''T'')])])"
  by (simp add: pipeline_eval)

end
